theory Spec2Isabelle
  imports Main "HOL-Library.Sublist"
begin

section \<open>Commands, failures and the shell argument codec\<close>

text \<open>
  A command handed to \<^verbatim>\<open>execute\<close> is either a single pre-joined string or a
  sequence of argument tokens. The variable \<^verbatim>\<open>command\<close> of the source holds both
  shapes during one call, so the model keeps them apart by a constructor.
\<close>

datatype command = Line string | Tokens "string list"

text \<open>
  The exceptions a call can meet: the word splitter rejecting a line, the transport
  call failing, a read of an output stream failing, a write to a log sink failing.
\<close>

datatype failure = SplitFailure | TransportFailure | ReadFailure | WriteFailure

text \<open>
  \<^verbatim>\<open>util.stringify_shell_arguments\<close> and \<^verbatim>\<open>util.split_shell_arguments\<close> are
  called by \<^verbatim>\<open>execute\<close> but live in a module that is not part of the sources at
  hand. The composition of the command line is therefore defined over an arbitrary
  codec; a concrete codec, modelled from the specification, follows below.
\<close>

record codec =
  stringify :: "command \<Rightarrow> string"
  split :: "string \<Rightarrow> failure + string list"

subsection \<open>The codec of the specification\<close>

definition sq :: char where
  "sq = CHR 0x27"

definition safe_chars :: string where
  "safe_chars =
     ''abcdefghijklmnopqrstuvwxyzABCDEFGHIJKLMNOPQRSTUVWXYZ0123456789_%+=:,./-'' @ [CHR 0x40]"

definition safe_char :: "char \<Rightarrow> bool" where
  "safe_char c = (c \<in> set safe_chars)"

text \<open>
  Modelled from the spec: the quoting of one token by the shell argument codec
  (section 4.1: ``quotes each token such that re-splitting yields the original
  tokens''; section 8 shows a token with a space wrapped in single quotes and plain
  tokens left bare). A token of safe characters stays as it is, the empty token becomes
  two single quotes, any other token is wrapped in single quotes with each embedded
  single quote closed, escaped in double quotes and reopened.
\<close>

definition quote_char :: "char \<Rightarrow> string" where
  "quote_char c = (if c = sq then [sq, CHR 0x22, sq, CHR 0x22, sq] else [c])"

definition quote :: "string \<Rightarrow> string" where
  "quote s =
     (if s = [] then [sq, sq]
      else if list_all safe_char s then s
      else [sq] @ concat (map quote_char s) @ [sq])"

fun join_spaces :: "string list \<Rightarrow> string" where
  "join_spaces [] = []"
| "join_spaces [t] = t"
| "join_spaces (t # ts) = t @ '' '' @ join_spaces ts"

text \<open>
  Modelled from the spec: \<^verbatim>\<open>util.stringify_shell_arguments\<close> (section 4.1,
  \<^verbatim>\<open>stringify(tokens) -> line\<close>: quote each token, join with single spaces). A
  command that already is a single pre-joined string (section 3) is returned as it is.
\<close>

fun stringify_shell_arguments :: "command \<Rightarrow> string" where
  "stringify_shell_arguments (Line s) = s"
| "stringify_shell_arguments (Tokens ts) = join_spaces (map quote ts)"

text \<open>
  Modelled from the spec: \<^verbatim>\<open>util.split_shell_arguments\<close> (section 4.1,
  \<^verbatim>\<open>split(line) -> tokens\<close>, ``inverse operation using shell-word-splitting
  rules''). The splitter reads the line character by character: blanks separate
  words, single quotes take everything up to the closing quote literally, double
  quotes do the same but let a backslash escape a double quote or a backslash, and a
  backslash outside quotes takes the next character literally. A line that ends inside
  a quotation or right after a backslash is rejected.
\<close>

datatype lex_state = Blank | Word | SQuote | DQuote | Escape lex_state

definition whitespace :: "char \<Rightarrow> bool" where
  "whitespace c = (c = CHR '' '' \<or> c = CHR 0x09 \<or> c = CHR 0x0A \<or> c = CHR 0x0D)"

fun lex :: "lex_state \<Rightarrow> string \<Rightarrow> string \<Rightarrow> failure + string list" where
  "lex Blank tok [] = Inr []"
| "lex Word tok [] = Inr [tok]"
| "lex SQuote tok [] = Inl SplitFailure"
| "lex DQuote tok [] = Inl SplitFailure"
| "lex (Escape st) tok [] = Inl SplitFailure"
| "lex Blank tok (c # cs) =
     (if whitespace c then lex Blank [] cs
      else if c = CHR 0x5C then lex (Escape Word) [] cs
      else if c = sq then lex SQuote [] cs
      else if c = CHR 0x22 then lex DQuote [] cs
      else lex Word [c] cs)"
| "lex Word tok (c # cs) =
     (if whitespace c then
        (case lex Blank [] cs of Inl e \<Rightarrow> Inl e | Inr ts \<Rightarrow> Inr (tok # ts))
      else if c = CHR 0x5C then lex (Escape Word) tok cs
      else if c = sq then lex SQuote tok cs
      else if c = CHR 0x22 then lex DQuote tok cs
      else lex Word (tok @ [c]) cs)"
| "lex SQuote tok (c # cs) =
     (if c = sq then lex Word tok cs else lex SQuote (tok @ [c]) cs)"
| "lex DQuote tok (c # cs) =
     (if c = CHR 0x22 then lex Word tok cs
      else if c = CHR 0x5C then lex (Escape DQuote) tok cs
      else lex DQuote (tok @ [c]) cs)"
| "lex (Escape st) tok (c # cs) =
     (if st = DQuote \<and> c \<noteq> CHR 0x5C \<and> c \<noteq> CHR 0x22
      then lex st (tok @ [CHR 0x5C, c]) cs
      else lex st (tok @ [c]) cs)"

definition split_shell_arguments :: "string \<Rightarrow> failure + string list" where
  "split_shell_arguments s = lex Blank [] s"

definition shell_codec :: codec where
  "shell_codec =
     \<lparr>stringify = stringify_shell_arguments, split = split_shell_arguments\<rparr>"

section \<open>Composition of the command line\<close>

text \<open>
  Lines 30 to 43 of \<^verbatim>\<open>SSHCommandExecutor.execute\<close>: the value of \<^verbatim>\<open>command\<close>
  just before it is stringified for the transport. The command is stringified first
  (line 30). Without a user it stays that string, or is wrapped for the shell. With a
  user the executor's \<^verbatim>\<open>sudo\<close> flag selects the prefix and the tail
  (\<^verbatim>\<open>command_end\<close>), the shell flag is appended to the prefix, then the tail. The
  splitter is the only call that can fail here.
\<close>

definition final_tokens ::
  "codec \<Rightarrow> bool \<Rightarrow> command \<Rightarrow> string option \<Rightarrow> string option \<Rightarrow> failure + command" where
  "final_tokens c sudo command user shell =
     (let command1 = stringify c command in
      case user of
        None \<Rightarrow>
          (case shell of
             None \<Rightarrow> Inr (Line command1)
           | Some sh \<Rightarrow> Inr (Tokens [sh, ''-c'', command1]))
      | Some u \<Rightarrow>
          (case (if sudo
                 then (case split c command1 of
                         Inl e \<Rightarrow> Inl e
                       | Inr ws \<Rightarrow> Inr (ws, [''sudo'', ''-u'', u]))
                 else Inr ([''-c'', command1], [''su'', u])) of
             Inl e \<Rightarrow> Inl e
           | Inr (command_end, command2) \<Rightarrow>
               Inr (Tokens ((case shell of
                               None \<Rightarrow> command2
                             | Some sh \<Rightarrow> command2 @ [''-s'', sh]) @ command_end))))"

text \<open>Line 45: the single command line that is handed to the transport.\<close>

definition command_line ::
  "codec \<Rightarrow> bool \<Rightarrow> command \<Rightarrow> string option \<Rightarrow> string option \<Rightarrow> failure + string" where
  "command_line c sudo command user shell =
     (case final_tokens c sudo command user shell of
        Inl e \<Rightarrow> Inl e
      | Inr cmd \<Rightarrow> Inr (stringify c cmd))"

section \<open>Stream pumps\<close>

datatype level = DEBUG | INFO | ERROR

text \<open>
  An output stream of the remote command, as the pump meets it: each iteration of
  \<^verbatim>\<open>for line in file\<close> either yields a line or raises a read error; when the list
  is used up the stream is at its end. A log sink is given by what it does with the
  \<open>n\<close>-th line written to it: \<open>True\<close> when the write succeeds, \<open>False\<close> when
  \<^verbatim>\<open>log.log\<close> raises. \<^verbatim>\<open>util.LogFile\<close> itself is not part of the sources at hand:
  its acquisition, its release (flush and close of the destination) and the records it
  receives appear as events, and its acquisition is taken to succeed.
\<close>

datatype read = Yields string | Fails

type_synonym sink = "nat \<Rightarrow> string \<Rightarrow> bool"

datatype pump_event = FileEnter | SinkAcquire | Record level string | SinkRelease | FileExit

text \<open>
  The loop of \<^verbatim>\<open>log_file\<close> (lines 10 and 11): the events it performs and the
  exception that interrupts it, if any. \<open>n\<close> counts the lines written so far.
\<close>

fun consume :: "level \<Rightarrow> sink \<Rightarrow> nat \<Rightarrow> read list \<Rightarrow> pump_event list \<times> failure option" where
  "consume lv logfile n [] = ([], None)"
| "consume lv logfile n (Fails # rest) = ([], Some ReadFailure)"
| "consume lv logfile n (Yields l # rest) =
     (if logfile n l
      then (case consume lv logfile (Suc n) rest of (es, r) \<Rightarrow> (Record lv l # es, r))
      else ([], Some WriteFailure))"

text \<open>
  \<^verbatim>\<open>log_file(logger, level, file, logfile)\<close> (lines 8 to 11). The \<^verbatim>\<open>with\<close>
  statement enters the stream, then the sink, runs the loop, and leaves the sink, then
  the stream, whether the loop ended or raised; an exception of the loop is raised
  again after both have been left. The logger is the same for both pumps and is left
  out.
\<close>

definition log_file :: "level \<Rightarrow> read list \<Rightarrow> sink \<Rightarrow> pump_event list \<times> failure option" where
  "log_file lv file logfile =
     (case consume lv logfile 0 file of
        (es, r) \<Rightarrow> ([FileEnter, SinkAcquire] @ es @ [SinkRelease, FileExit], r))"

fun records :: "pump_event list \<Rightarrow> (level \<times> string) list" where
  "records [] = []"
| "records (Record lv l # es) = (lv, l) # records es"
| "records (e # es) = records es"

definition releases :: "pump_event list \<Rightarrow> nat" where
  "releases es = length (filter (\<lambda>e. e = SinkRelease) es)"

section \<open>Threads\<close>

text \<open>
  A \<^verbatim>\<open>threading.Thread\<close> whose target is \<^verbatim>\<open>log_file\<close>. Before \<^verbatim>\<open>start()\<close> it
  does nothing. Once started it performs the events of its \<^verbatim>\<open>log_file\<close> call one at
  a time: the events performed so far, the events still to come, and the exception the
  call ends with. When the call has ended the thread terminates; an exception that
  leaves the target stays in the thread (the interpreter reports it on the local error
  output) and is kept here with the terminated thread. \<^verbatim>\<open>join()\<close> returns once the
  thread has terminated and raises nothing.
\<close>

datatype thread =
    Unstarted
  | Running "pump_event list" "pump_event list" "failure option"
  | Terminated "pump_event list" "failure option"

definition spawn :: "level \<Rightarrow> read list \<Rightarrow> sink \<Rightarrow> thread" where
  "spawn lv file logfile = (case log_file lv file logfile of (es, r) \<Rightarrow> Running [] es r)"

fun thread_step :: "thread \<Rightarrow> thread" where
  "thread_step Unstarted = Unstarted"
| "thread_step (Running js [] r) = Terminated js r"
| "thread_step (Running js (e # es) r) = Running (js @ [e]) es r"
| "thread_step (Terminated js r) = Terminated js r"

fun performed :: "thread \<Rightarrow> pump_event list" where
  "performed Unstarted = []"
| "performed (Running js es r) = js"
| "performed (Terminated js r) = js"

fun finished :: "thread \<Rightarrow> bool" where
  "finished (Terminated js r) = True"
| "finished t = False"

fun uncaught :: "thread \<Rightarrow> failure option" where
  "uncaught (Terminated js r) = r"
| "uncaught t = None"

section \<open>The remote executor\<close>

text \<open>
  What \<^verbatim>\<open>client.exec_command\<close> hands back: the two output streams of the remote
  command. The exit status of the remote command belongs to the channel as well.
\<close>

record ssh_channel =
  stdout :: "read list"
  stderr :: "read list"
  exit_status :: int

record executor =
  client :: "string \<Rightarrow> failure + ssh_channel"
  sudo :: bool

record request =
  command :: command
  user :: "string option"
  shell :: "string option"
  stdout_logfile :: sink
  stderr_logfile :: sink

text \<open>
  The calling thread of \<^verbatim>\<open>execute\<close>: where it stands, the calls it has made so far
  in order, and the channel once it is open. The two pump threads run beside it.
\<close>

datatype pc =
    AtExec | AtStdinClose | AtStartOut | AtStartErr | AtJoinOut | AtJoinErr
  | Returned | Raised failure

datatype main_event =
    LogDebug string | ExecCommand string | StdinClose
  | StartOut | StartErr | JoinOut | JoinErr

record config =
  pc :: pc
  trace :: "main_event list"
  chan :: "ssh_channel option"
  out_thread :: thread
  err_thread :: thread

definition init :: config where
  "init = \<lparr>pc = AtExec, trace = [], chan = None, out_thread = Unstarted, err_thread = Unstarted\<rparr>"

text \<open>
  One step of the calling thread. \<open>AtExec\<close> covers lines 30 to 48: compose the line,
  log it, call the transport. Lines 52 and 53 build the two threads; they are started
  at \<open>AtStartOut\<close> and \<open>AtStartErr\<close>. A \<^verbatim>\<open>join()\<close> on a thread that has not
  terminated blocks: the step changes nothing. After the second join the function body
  ends, so the call returns \<^verbatim>\<open>None\<close>.
\<close>

definition main_step :: "codec \<Rightarrow> executor \<Rightarrow> request \<Rightarrow> config \<Rightarrow> config" where
  "main_step c ex rq cfg =
     (case pc cfg of
        AtExec \<Rightarrow>
          (case command_line c (sudo ex) (command rq) (user rq) (shell rq) of
             Inl e \<Rightarrow> cfg\<lparr>pc := Raised e\<rparr>
           | Inr ln \<Rightarrow>
               (case client ex ln of
                  Inl e \<Rightarrow>
                    cfg\<lparr>pc := Raised e, trace := trace cfg @ [LogDebug ln, ExecCommand ln]\<rparr>
                | Inr ch \<Rightarrow>
                    cfg\<lparr>pc := AtStdinClose,
                        trace := trace cfg @ [LogDebug ln, ExecCommand ln],
                        chan := Some ch\<rparr>))
      | AtStdinClose \<Rightarrow> cfg\<lparr>pc := AtStartOut, trace := trace cfg @ [StdinClose]\<rparr>
      | AtStartOut \<Rightarrow>
          (case chan cfg of
             None \<Rightarrow> cfg
           | Some ch \<Rightarrow>
               cfg\<lparr>pc := AtStartErr, trace := trace cfg @ [StartOut],
                   out_thread := spawn INFO (stdout ch) (stdout_logfile rq)\<rparr>)
      | AtStartErr \<Rightarrow>
          (case chan cfg of
             None \<Rightarrow> cfg
           | Some ch \<Rightarrow>
               cfg\<lparr>pc := AtJoinOut, trace := trace cfg @ [StartErr],
                   err_thread := spawn ERROR (stderr ch) (stderr_logfile rq)\<rparr>)
      | AtJoinOut \<Rightarrow>
          (if finished (out_thread cfg)
           then cfg\<lparr>pc := AtJoinErr, trace := trace cfg @ [JoinOut]\<rparr>
           else cfg)
      | AtJoinErr \<Rightarrow>
          (if finished (err_thread cfg)
           then cfg\<lparr>pc := Returned, trace := trace cfg @ [JoinErr]\<rparr>
           else cfg)
      | Returned \<Rightarrow> cfg
      | Raised e \<Rightarrow> cfg)"

text \<open>
  The three threads of one call take turns in an order the scheduler chooses. A
  schedule names the thread that takes each step; a thread that cannot move (not
  started, blocked in a join, or ended) leaves the configuration as it is.
\<close>

datatype tid = MainThread | OutThread | ErrThread

fun step :: "codec \<Rightarrow> executor \<Rightarrow> request \<Rightarrow> config \<Rightarrow> tid \<Rightarrow> config" where
  "step c ex rq cfg MainThread = main_step c ex rq cfg"
| "step c ex rq cfg OutThread = cfg\<lparr>out_thread := thread_step (out_thread cfg)\<rparr>"
| "step c ex rq cfg ErrThread = cfg\<lparr>err_thread := thread_step (err_thread cfg)\<rparr>"

definition run :: "codec \<Rightarrow> executor \<Rightarrow> request \<Rightarrow> tid list \<Rightarrow> config \<Rightarrow> config" where
  "run c ex rq sched cfg = foldl (step c ex rq) cfg sched"

text \<open>\<^verbatim>\<open>execute\<close> under a schedule: the configuration the call has reached.\<close>

definition execute :: "codec \<Rightarrow> executor \<Rightarrow> request \<Rightarrow> tid list \<Rightarrow> config" where
  "execute c ex rq sched = run c ex rq sched init"

text \<open>What the caller has got from the call so far: nothing yet, \<^verbatim>\<open>None\<close>, or an exception.\<close>

datatype result = ReturnsNone | Raises failure

fun outcome :: "config \<Rightarrow> result option" where
  "outcome cfg =
     (case pc cfg of Returned \<Rightarrow> Some ReturnsNone | Raised e \<Rightarrow> Some (Raises e) | _ \<Rightarrow> None)"

text \<open>The calls of a complete call of \<^verbatim>\<open>execute\<close> with command line \<open>ln\<close>, in order.\<close>

definition full_trace :: "string \<Rightarrow> main_event list" where
  "full_trace ln =
     [LogDebug ln, ExecCommand ln, StdinClose, StartOut, StartErr, JoinOut, JoinErr]"

text \<open>
  A schedule that lets the call run to its end: the caller up to the first join, the
  standard-output pump \<open>n\<close> steps, the standard-error pump \<open>m\<close> steps, then the caller
  again for the two joins.
\<close>

definition sequential :: "nat \<Rightarrow> nat \<Rightarrow> tid list" where
  "sequential n m =
     replicate 4 MainThread @ replicate n OutThread @ replicate m ErrThread
       @ replicate 2 MainThread"

section \<open>The wireless channel\<close>

text \<open>
  The attribute values handed to the physical-layer helper. The sending power is a
  floating-point number that is only passed on, so its type is left open.
\<close>

datatype 'p attribute_value = UintegerValue int | DoubleValue 'p

record 'p wifi_channel =
  channel :: int
  frequency :: "int option"
  channel_width :: int
  antennas :: int
  tx_power :: 'p
  wifi_phy_helper :: "(string \<times> 'p attribute_value) list"

text \<open>The truth value of the \<^verbatim>\<open>frequency\<close> argument: \<^verbatim>\<open>None\<close> and \<^verbatim>\<open>0\<close> are false.\<close>

fun truthy :: "int option \<Rightarrow> bool" where
  "truthy None = False"
| "truthy (Some n) = (n \<noteq> 0)"

text \<open>
  \<^verbatim>\<open>WiFiChannel.__init__\<close>, lines 126 to 153: the fields kept and the \<^verbatim>\<open>Set\<close> calls
  on the physical-layer helper, in the order they are made.
\<close>

definition wifi_init :: "int option \<Rightarrow> int \<Rightarrow> int \<Rightarrow> int \<Rightarrow> 'p \<Rightarrow> 'p wifi_channel" where
  "wifi_init freq ch width ants txp =
     \<lparr>channel = ch, frequency = freq, channel_width = width, antennas = ants,
      tx_power = txp,
      wifi_phy_helper =
        [(''ChannelWidth'', UintegerValue width)]
        @ (case freq of
             None \<Rightarrow> [(''ChannelNumber'', UintegerValue ch)]
           | Some f \<Rightarrow>
               if truthy freq then [(''Frequency'', UintegerValue f)]
               else [(''ChannelNumber'', UintegerValue ch)])
        @ [(''Antennas'', UintegerValue ants),
           (''MaxSupportedTxSpatialStreams'', UintegerValue ants),
           (''MaxSupportedRxSpatialStreams'', UintegerValue ants),
           (''TxPowerStart'', DoubleValue txp),
           (''TxPowerEnd'', DoubleValue txp)]\<rparr>"

definition frequency_selection :: "(string \<times> 'p attribute_value) list \<Rightarrow> (string \<times> 'p attribute_value) list" where
  "frequency_selection sets =
     filter (\<lambda>kv. fst kv = ''Frequency'' \<or> fst kv = ''ChannelNumber'') sets"

section \<open>The invariant of a call\<close>

text \<open>
  What holds of a started pump thread: what it has done and what it still has to do make
  up the run of \<^verbatim>\<open>log_file\<close> on its stream and sink. \<open>stage\<close> counts the calls the
  calling thread has made when it stands at a program point.
\<close>

fun thread_ok :: "level \<Rightarrow> read list \<Rightarrow> sink \<Rightarrow> thread \<Rightarrow> bool" where
  "thread_ok lv fl logfile Unstarted = False"
| "thread_ok lv fl logfile (Running js es r) =
     (js @ es = fst (log_file lv fl logfile) \<and> r = snd (log_file lv fl logfile))"
| "thread_ok lv fl logfile (Terminated js r) =
     (js = fst (log_file lv fl logfile) \<and> r = snd (log_file lv fl logfile))"

fun stage :: "pc \<Rightarrow> nat" where
  "stage AtExec = 0"
| "stage AtStdinClose = 2"
| "stage AtStartOut = 3"
| "stage AtStartErr = 4"
| "stage AtJoinOut = 5"
| "stage AtJoinErr = 6"
| "stage Returned = 7"
| "stage (Raised e) = 2"

definition pump_inv :: "nat \<Rightarrow> nat \<Rightarrow> nat \<Rightarrow> level \<Rightarrow> read list \<Rightarrow> sink \<Rightarrow> thread \<Rightarrow> bool" where
  "pump_inv started joined k lv fl logfile t =
     (if k < started then t = Unstarted
      else thread_ok lv fl logfile t \<and> (joined \<le> k \<longrightarrow> finished t))"

definition inv :: "codec \<Rightarrow> executor \<Rightarrow> request \<Rightarrow> config \<Rightarrow> bool" where
  "inv c ex rq cfg =
     (case command_line c (sudo ex) (command rq) (user rq) (shell rq) of
        Inl e \<Rightarrow>
          (pc cfg = AtExec \<or> pc cfg = Raised e) \<and> trace cfg = [] \<and> chan cfg = None
          \<and> out_thread cfg = Unstarted \<and> err_thread cfg = Unstarted
      | Inr ln \<Rightarrow>
          (case client ex ln of
             Inl e \<Rightarrow>
               (pc cfg = AtExec \<and> trace cfg = []
                \<or> pc cfg = Raised e \<and> trace cfg = [LogDebug ln, ExecCommand ln])
               \<and> chan cfg = None
               \<and> out_thread cfg = Unstarted \<and> err_thread cfg = Unstarted
           | Inr ch \<Rightarrow>
               (\<forall>e. pc cfg \<noteq> Raised e)
               \<and> trace cfg = take (stage (pc cfg)) (full_trace ln)
               \<and> chan cfg = (if pc cfg = AtExec then None else Some ch)
               \<and> pump_inv 4 6 (stage (pc cfg)) INFO (stdout ch) (stdout_logfile rq) (out_thread cfg)
               \<and> pump_inv 5 7 (stage (pc cfg)) ERROR (stderr ch) (stderr_logfile rq) (err_thread cfg)))"

section \<open>Concrete calls\<close>

definition accept_all :: sink where
  "accept_all n l = True"

definition demo_request :: request where
  "demo_request =
     \<lparr>command = Tokens [''echo'', ''hi''], user = None, shell = None,
      stdout_logfile = accept_all, stderr_logfile = accept_all\<rparr>"

definition healthy_channel :: ssh_channel where
  "healthy_channel =
     \<lparr>stdout = [Yields ''one'', Yields ''two''], stderr = [Yields ''oops''], exit_status = 0\<rparr>"

definition broken_channel :: ssh_channel where
  "broken_channel =
     \<lparr>stdout = [Yields ''one'', Fails, Yields ''two''], stderr = [Yields ''oops''],
      exit_status = 1\<rparr>"

definition demo_executor :: "ssh_channel \<Rightarrow> executor" where
  "demo_executor ch = \<lparr>client = (\<lambda>ln. Inr ch), sudo = False\<rparr>"

text \<open>
  The same executor with a remote command that ends with exit status \<open>k\<close>, and a
  configuration with the exit status of its channel set to \<open>k\<close>: used to state that a
  call does not depend on the exit status.
\<close>

definition with_exit_status :: "int \<Rightarrow> executor \<Rightarrow> executor" where
  "with_exit_status k ex =
     ex\<lparr>client := (\<lambda>ln. case client ex ln of
                           Inl e \<Rightarrow> Inl e
                         | Inr ch \<Rightarrow> Inr (ch\<lparr>exit_status := k\<rparr>))\<rparr>"

definition forget_status :: "int \<Rightarrow> config \<Rightarrow> config" where
  "forget_status k cfg = cfg\<lparr>chan := map_option (\<lambda>ch. ch\<lparr>exit_status := k\<rparr>) (chan cfg)\<rparr>"

section \<open>Properties of the pump and of the threads\<close>

lemma consume_no_release: "SinkRelease \<notin> set (fst (consume lv logfile n fl))"
  by (induction lv logfile n fl rule: consume.induct) (auto split: prod.splits)

lemma log_file_releases: "releases (fst (log_file lv fl logfile)) = 1"
proof -
  have "filter (\<lambda>e. e = SinkRelease) (fst (consume lv logfile 0 fl)) = []"
    using consume_no_release [of lv logfile 0 fl] by (auto simp: filter_empty_conv)
  then show ?thesis by (simp add: releases_def log_file_def case_prod_beta)
qed

lemma log_file_ends:
  "\<exists>es. fst (log_file lv fl logfile) = es @ [SinkRelease, FileExit]"
proof -
  have "fst (log_file lv fl logfile) =
          ([FileEnter, SinkAcquire] @ fst (consume lv logfile 0 fl)) @ [SinkRelease, FileExit]"
    by (simp add: log_file_def case_prod_beta)
  then show ?thesis by blast
qed

lemma thread_ok_step: "thread_ok lv fl logfile t \<Longrightarrow> thread_ok lv fl logfile (thread_step t)"
  by (induction t rule: thread_step.induct) auto

lemma finished_step: "finished t \<Longrightarrow> thread_step t = t"
  by (cases t) auto

lemma thread_ok_spawn: "thread_ok lv fl logfile (spawn lv fl logfile)"
  by (simp add: spawn_def split: prod.splits)

lemma pump_inv_step:
  "pump_inv s j k lv fl logfile t \<Longrightarrow> pump_inv s j k lv fl logfile (thread_step t)"
  by (auto simp: pump_inv_def thread_ok_step finished_step)

lemma inv_init: "inv c ex rq init"
  by (simp add: inv_def init_def pump_inv_def full_trace_def split: sum.splits)

lemma inv_main_step: "inv c ex rq cfg \<Longrightarrow> inv c ex rq (main_step c ex rq cfg)"
  unfolding inv_def main_step_def
  by (cases "pc cfg")
     (auto simp: pump_inv_def full_trace_def thread_ok_spawn split: sum.splits)

lemma inv_step: "inv c ex rq cfg \<Longrightarrow> inv c ex rq (step c ex rq cfg t)"
proof (cases t)
  case MainThread
  assume "inv c ex rq cfg"
  then show ?thesis using MainThread by (simp add: inv_main_step)
next
  case OutThread
  assume "inv c ex rq cfg"
  then show ?thesis using OutThread
    by (auto simp: inv_def pump_inv_step split: sum.splits)
next
  case ErrThread
  assume "inv c ex rq cfg"
  then show ?thesis using ErrThread
    by (auto simp: inv_def pump_inv_step split: sum.splits)
qed

lemma inv_run: "inv c ex rq cfg \<Longrightarrow> inv c ex rq (run c ex rq sched cfg)"
  unfolding run_def by (induction sched arbitrary: cfg) (simp_all add: inv_step)

lemma inv_execute: "inv c ex rq (execute c ex rq sched)"
  by (simp add: execute_def inv_run inv_init)


lemma consume_yields:
  "(\<forall>k l. logfile k l) \<Longrightarrow> consume lv logfile n (map Yields ls @ rest) =
     (map (Record lv) ls @ fst (consume lv logfile (n + length ls) rest),
      snd (consume lv logfile (n + length ls) rest))"
  by (induction ls arbitrary: n) (auto split: prod.splits)

lemma log_file_yields:
  "(\<forall>k l. logfile k l) \<Longrightarrow> log_file lv (map Yields ls) logfile =
     ([FileEnter, SinkAcquire] @ map (Record lv) ls @ [SinkRelease, FileExit], None)"
  using consume_yields [of logfile lv 0 ls "[]"] by (simp add: log_file_def)

lemma records_append: "records (xs @ ys) = records xs @ records ys"
  by (induction xs rule: records.induct) auto

lemma records_map_Record: "records (map (Record lv) ls) = map (Pair lv) ls"
  by (induction ls) auto

lemma records_prefix: "prefix xs ys \<Longrightarrow> prefix (records xs) (records ys)"
  by (auto simp: prefix_def records_append)

lemma thread_ok_prefix:
  "thread_ok lv fl logfile t \<Longrightarrow> prefix (performed t) (fst (log_file lv fl logfile))"
  by (cases t) (simp_all add: prefix_def, metis)

lemma thread_ok_finished:
  "thread_ok lv fl logfile t \<Longrightarrow> finished t \<Longrightarrow>
     performed t = fst (log_file lv fl logfile) \<and> uncaught t = snd (log_file lv fl logfile)"
  by (cases t) auto

lemma consume_length: "length (fst (consume lv logfile n fl)) \<le> length fl"
  by (induction lv logfile n fl rule: consume.induct) (auto split: prod.splits)

lemma log_file_length: "length (fst (log_file lv fl logfile)) \<le> length fl + 4"
  using consume_length [of lv logfile 0 fl] by (simp add: log_file_def case_prod_beta)

lemma thread_steps_running:
  "length es < n \<Longrightarrow> (thread_step ^^ n) (Running js es r) = Terminated (js @ es) r"
proof (induction es arbitrary: js n)
  case Nil
  then obtain k where "n = Suc k" by (cases n) auto
  moreover have "(thread_step ^^ k) (Terminated js r) = Terminated js r"
    by (induction k) auto
  ultimately show ?case by (simp add: funpow_swap1)
next
  case (Cons e es)
  then obtain k where k: "n = Suc k" "length es < k" by (cases n) auto
  then show ?case using Cons.IH [of k "js @ [e]"] by (simp add: funpow_swap1)
qed

lemma thread_steps_spawn:
  "length fl + 4 < n \<Longrightarrow>
     (thread_step ^^ n) (spawn lv fl logfile) =
       Terminated (fst (log_file lv fl logfile)) (snd (log_file lv fl logfile))"
  using log_file_length [of lv fl logfile]
    thread_steps_running [of "fst (log_file lv fl logfile)" n "[]"]
  by (simp add: spawn_def case_prod_beta)

lemma thread_steps_unstarted: "(thread_step ^^ n) Unstarted = Unstarted"
  by (induction n) auto

lemma run_append: "run c ex rq (xs @ ys) cfg = run c ex rq ys (run c ex rq xs cfg)"
  by (simp add: run_def)

lemma run_out:
  "run c ex rq (replicate n OutThread) cfg =
     cfg\<lparr>out_thread := (thread_step ^^ n) (out_thread cfg)\<rparr>"
  unfolding run_def by (induction n arbitrary: cfg) (simp_all add: funpow_swap1)

lemma run_err:
  "run c ex rq (replicate n ErrThread) cfg =
     cfg\<lparr>err_thread := (thread_step ^^ n) (err_thread cfg)\<rparr>"
  unfolding run_def by (induction n arbitrary: cfg) (simp_all add: funpow_swap1)

lemma run_main4:
  "run c ex rq (replicate 4 MainThread) cfg =
     main_step c ex rq (main_step c ex rq (main_step c ex rq (main_step c ex rq cfg)))"
  by (simp add: run_def numeral_eq_Suc)

lemma run_main2:
  "run c ex rq (replicate 2 MainThread) cfg = main_step c ex rq (main_step c ex rq cfg)"
  by (simp add: run_def numeral_eq_Suc)

lemma sequential_returns:
  assumes "command_line c (sudo ex) (command rq) (user rq) (shell rq) = Inr ln"
    and "client ex ln = Inr ch"
    and "length (stdout ch) + 4 < n" and "length (stderr ch) + 4 < m"
  shows "execute c ex rq (sequential n m) =
     \<lparr>pc = Returned, trace = full_trace ln, chan = Some ch,
      out_thread = Terminated (fst (log_file INFO (stdout ch) (stdout_logfile rq)))
                     (snd (log_file INFO (stdout ch) (stdout_logfile rq))),
      err_thread = Terminated (fst (log_file ERROR (stderr ch) (stderr_logfile rq)))
                     (snd (log_file ERROR (stderr ch) (stderr_logfile rq)))\<rparr>"
  using assms
  by (simp add: execute_def sequential_def run_append run_main4 run_main2 run_out run_err
      main_step_def init_def thread_steps_spawn full_trace_def)

lemma sequential_raises_compose:
  assumes "command_line c (sudo ex) (command rq) (user rq) (shell rq) = Inl e"
  shows "execute c ex rq (sequential n m) = init\<lparr>pc := Raised e\<rparr>"
  using assms
  by (simp add: execute_def sequential_def run_append run_main4 run_main2 run_out run_err
      main_step_def init_def thread_steps_unstarted)

lemma sequential_raises_transport:
  assumes "command_line c (sudo ex) (command rq) (user rq) (shell rq) = Inr ln"
    and "client ex ln = Inl e"
  shows "execute c ex rq (sequential n m) =
           init\<lparr>pc := Raised e, trace := [LogDebug ln, ExecCommand ln]\<rparr>"
  using assms
  by (simp add: execute_def sequential_def run_append run_main4 run_main2 run_out run_err
      main_step_def init_def thread_steps_unstarted)

lemma returned_stable:
  assumes "inv c ex rq cfg" and "pc cfg = Returned"
  shows "run c ex rq later cfg = cfg"
proof -
  have fin: "finished (out_thread cfg) \<and> finished (err_thread cfg)"
    using assms by (auto simp: inv_def pump_inv_def split: sum.splits)
  have "step c ex rq cfg t = cfg" for t
    using fin assms(2) by (cases t) (simp_all add: main_step_def finished_step)
  then show ?thesis unfolding run_def by (induction later) simp_all
qed

lemmas codec_eval = shell_codec_def quote_def quote_char_def safe_char_def safe_chars_def sq_def
  split_shell_arguments_def whitespace_def

lemma demo_line:
  "command_line shell_codec (sudo (demo_executor ch)) (command demo_request)
     (user demo_request) (shell demo_request) = Inr ''echo hi''"
  by (simp add: demo_request_def demo_executor_def command_line_def final_tokens_def codec_eval)

lemma healthy_run:
  "execute shell_codec (demo_executor healthy_channel) demo_request (sequential 7 7) =
     \<lparr>pc = Returned, trace = full_trace ''echo hi'', chan = Some healthy_channel,
      out_thread =
        Terminated [FileEnter, SinkAcquire, Record INFO ''one'', Record INFO ''two'',
                    SinkRelease, FileExit] None,
      err_thread =
        Terminated [FileEnter, SinkAcquire, Record ERROR ''oops'', SinkRelease, FileExit]
          None\<rparr>"
proof -
  have "client (demo_executor healthy_channel) ''echo hi'' = Inr healthy_channel"
    by (simp add: demo_executor_def)
  from sequential_returns [OF demo_line this, of 7 7]
  show ?thesis
    by (simp add: healthy_channel_def demo_request_def log_file_def accept_all_def)
qed

lemma broken_run:
  "execute shell_codec (demo_executor broken_channel) demo_request (sequential 8 8) =
     \<lparr>pc = Returned, trace = full_trace ''echo hi'', chan = Some broken_channel,
      out_thread =
        Terminated [FileEnter, SinkAcquire, Record INFO ''one'', SinkRelease, FileExit]
          (Some ReadFailure),
      err_thread =
        Terminated [FileEnter, SinkAcquire, Record ERROR ''oops'', SinkRelease, FileExit]
          None\<rparr>"
proof -
  have "client (demo_executor broken_channel) ''echo hi'' = Inr broken_channel"
    by (simp add: demo_executor_def)
  from sequential_returns [OF demo_line this, of 8 8]
  show ?thesis
    by (simp add: broken_channel_def demo_request_def log_file_def accept_all_def)
qed

lemma pump_inv_prefix:
  "pump_inv s j k lv fl logfile t \<Longrightarrow> prefix (performed t) (fst (log_file lv fl logfile))"
  by (auto simp: pump_inv_def thread_ok_prefix split: if_splits)

lemma pump_inv_finished:
  "pump_inv s j k lv fl logfile t \<Longrightarrow> finished t \<Longrightarrow>
     performed t = fst (log_file lv fl logfile) \<and> uncaught t = snd (log_file lv fl logfile)"
  by (auto simp: pump_inv_def thread_ok_finished split: if_splits)

lemma inv_opened:
  assumes "inv c ex rq cfg"
    and "command_line c (sudo ex) (command rq) (user rq) (shell rq) = Inr ln"
    and "client ex ln = Inr ch"
  shows "pump_inv 4 6 (stage (pc cfg)) INFO (stdout ch) (stdout_logfile rq) (out_thread cfg)"
    and "pump_inv 5 7 (stage (pc cfg)) ERROR (stderr ch) (stderr_logfile rq) (err_thread cfg)"
    and "pc cfg \<noteq> Raised e"
    and "trace cfg = take (stage (pc cfg)) (full_trace ln)"
  using assms by (auto simp: inv_def)

lemma inv_returned:
  assumes "inv c ex rq cfg" and "pc cfg = Returned"
  shows "finished (out_thread cfg) \<and> finished (err_thread cfg)"
  using assms by (auto simp: inv_def pump_inv_def split: sum.splits)

lemma execute_append:
  "execute c ex rq (sched @ later) = run c ex rq later (execute c ex rq sched)"
  by (simp add: execute_def run_append)

lemma step_forget_status:
  "step c (with_exit_status k ex) rq (forget_status k cfg) t =
     forget_status k (step c ex rq cfg t)"
  by (cases t; cases "pc cfg")
     (auto simp: main_step_def with_exit_status_def forget_status_def
           split: sum.splits option.splits)

lemma run_forget_status:
  "run c (with_exit_status k ex) rq sched (forget_status k cfg) =
     forget_status k (run c ex rq sched cfg)"
  unfolding run_def by (induction sched arbitrary: cfg) (simp_all add: step_forget_status)

lemma execute_forget_status:
  "execute c (with_exit_status k ex) rq sched = forget_status k (execute c ex rq sched)"
  using run_forget_status [of c k ex rq sched init]
  by (simp add: execute_def forget_status_def init_def)

section \<open>Composition of the command line: theorems\<close>

text \<open>
  C3: with a user, the sudo strategy and no shell, the composed tokens are
  \<^verbatim>\<open>sudo -u user\<close> followed by the words the splitter gives for the stringified
  command (a failure of the splitter is the failure of the call); with the codec of the
  specification, \<^verbatim>\<open>["echo", "hi"]\<close> for user \<^verbatim>\<open>alice\<close> gives
  \<^verbatim>\<open>["sudo", "-u", "alice", "echo", "hi"]\<close>.
\<close>

theorem sudo_composition:
  "final_tokens c True cmd (Some usr) None =
     (case split c (stringify c cmd) of
        Inl e \<Rightarrow> Inl e
      | Inr ws \<Rightarrow> Inr (Tokens ([''sudo'', ''-u'', usr] @ ws)))
   \<and> final_tokens shell_codec True (Tokens [''echo'', ''hi'']) (Some ''alice'') None =
       Inr (Tokens [''sudo'', ''-u'', ''alice'', ''echo'', ''hi''])"
proof
  show "final_tokens c True cmd (Some usr) None =
     (case split c (stringify c cmd) of
        Inl e \<Rightarrow> Inl e
      | Inr ws \<Rightarrow> Inr (Tokens ([''sudo'', ''-u'', usr] @ ws)))"
    by (simp add: final_tokens_def split: sum.splits)
  show "final_tokens shell_codec True (Tokens [''echo'', ''hi'']) (Some ''alice'') None =
       Inr (Tokens [''sudo'', ''-u'', ''alice'', ''echo'', ''hi''])"
    by (simp add: final_tokens_def codec_eval)
qed

text \<open>
  C6: with a user, the switch-user strategy and no shell, the composed tokens are
  \<^verbatim>\<open>su\<close>, the user, \<^verbatim>\<open>-c\<close> and the stringified command; with the codec of the
  specification, \<^verbatim>\<open>["echo", "hi"]\<close> for user \<^verbatim>\<open>bob\<close> gives
  \<^verbatim>\<open>["su", "bob", "-c", "echo hi"]\<close>.
\<close>

theorem su_composition:
  "final_tokens c False cmd (Some usr) None =
     Inr (Tokens [''su'', usr, ''-c'', stringify c cmd])
   \<and> final_tokens shell_codec False (Tokens [''echo'', ''hi'']) (Some ''bob'') None =
       Inr (Tokens [''su'', ''bob'', ''-c'', ''echo hi''])"
  by (simp add: final_tokens_def codec_eval)

text \<open>
  C7: without a user, the command is wrapped as shell, \<^verbatim>\<open>-c\<close>, stringified command
  exactly when a shell is given; otherwise the stringified command itself goes on, and
  with the codec of the specification the line handed to the transport is the
  stringified command, unchanged. \<^verbatim>\<open>["echo", "hi"]\<close> gives the line \<^verbatim>\<open>echo hi\<close>
  without a shell and \<^verbatim>\<open>/bin/bash -c 'echo hi'\<close> with the shell \<^verbatim>\<open>/bin/bash\<close>.
\<close>

theorem no_user_composition:
  "final_tokens c sd cmd None shl =
     Inr (case shl of
            None \<Rightarrow> Line (stringify c cmd)
          | Some sh \<Rightarrow> Tokens [sh, ''-c'', stringify c cmd])
   \<and> (final_tokens c sd cmd None shl = Inr (Tokens [sh, ''-c'', stringify c cmd]))
       = (shl = Some sh)
   \<and> command_line shell_codec sd cmd None None = Inr (stringify_shell_arguments cmd)
   \<and> command_line shell_codec sd cmd None (Some sh) =
       Inr (join_spaces [quote sh, ''-c'', quote (stringify_shell_arguments cmd)])
   \<and> command_line shell_codec sd (Tokens [''echo'', ''hi'']) None None = Inr ''echo hi''
   \<and> command_line shell_codec sd (Tokens [''echo'', ''hi'']) None (Some ''/bin/bash'') =
       Inr (''/bin/bash -c '' @ [sq] @ ''echo hi'' @ [sq])"
  by (simp add: final_tokens_def command_line_def codec_eval split: option.splits)

text \<open>
  C8: with a user and a shell, under either strategy the tokens \<^verbatim>\<open>-s\<close>, shell stand
  right after the prefix and before the tail; the line is this token vector stringified
  once, and it is the line the transport is called with.
\<close>

theorem shell_flag_composition:
  "final_tokens c sd cmd (Some usr) (Some sh) =
     (if sd
      then (case split c (stringify c cmd) of
              Inl e \<Rightarrow> Inl e
            | Inr ws \<Rightarrow> Inr (Tokens ([''sudo'', ''-u'', usr] @ [''-s'', sh] @ ws)))
      else Inr (Tokens ([''su'', usr] @ [''-s'', sh] @ [''-c'', stringify c cmd])))
   \<and> command_line c sd cmd (Some usr) (Some sh) =
       (if sd
        then (case split c (stringify c cmd) of
                Inl e \<Rightarrow> Inl e
              | Inr ws \<Rightarrow>
                  Inr (stringify c (Tokens ([''sudo'', ''-u'', usr] @ [''-s'', sh] @ ws))))
        else Inr (stringify c
                    (Tokens ([''su'', usr] @ [''-s'', sh] @ [''-c'', stringify c cmd]))))
   \<and> trace (execute c ex (rq\<lparr>user := Some usr, shell := Some sh\<rparr>) [MainThread]) =
       (case command_line c (sudo ex) (command rq) (Some usr) (Some sh) of
          Inl e \<Rightarrow> []
        | Inr ln \<Rightarrow> [LogDebug ln, ExecCommand ln])"
  by (simp add: final_tokens_def command_line_def execute_def run_def main_step_def init_def
      split: sum.splits)

section \<open>The pump, the call and the wireless channel: theorems\<close>

text \<open>
  C1: in every call of \<^verbatim>\<open>execute\<close>, under every schedule, the calls of the calling
  thread are an initial part of: log the line, open the channel, close its input stream,
  start the standard-output pump, start the standard-error pump, join the first, join the
  second. Nothing is written to the input stream, a pump does nothing before it is
  started, both pumps are started before either is joined, a join has returned only when
  its pump has terminated, and the call has returned only after both joins, with both
  pumps terminated.
\<close>

theorem execute_event_order:
  "(let cfg = execute c ex rq sched in
    (case command_line c (sudo ex) (command rq) (user rq) (shell rq) of
       Inl e \<Rightarrow> trace cfg = []
     | Inr ln \<Rightarrow> prefix (trace cfg) (full_trace ln))
    \<and> (StartOut \<notin> set (trace cfg) \<longrightarrow> out_thread cfg = Unstarted)
    \<and> (StartErr \<notin> set (trace cfg) \<longrightarrow> err_thread cfg = Unstarted)
    \<and> (JoinOut \<in> set (trace cfg) \<longrightarrow> finished (out_thread cfg))
    \<and> (JoinErr \<in> set (trace cfg) \<longrightarrow> finished (err_thread cfg))
    \<and> (pc cfg = Returned \<longrightarrow>
         JoinOut \<in> set (trace cfg) \<and> JoinErr \<in> set (trace cfg)
         \<and> finished (out_thread cfg) \<and> finished (err_thread cfg)))"
proof -
  define cfg where "cfg = execute c ex rq sched"
  have i: "inv c ex rq cfg" unfolding cfg_def by (rule inv_execute)
  have "(case command_line c (sudo ex) (command rq) (user rq) (shell rq) of
       Inl e \<Rightarrow> trace cfg = []
     | Inr ln \<Rightarrow> prefix (trace cfg) (full_trace ln))"
    using i by (auto simp: inv_def take_is_prefix full_trace_def split: sum.splits)
  moreover have "StartOut \<notin> set (trace cfg) \<longrightarrow> out_thread cfg = Unstarted"
    using i by (cases "pc cfg") (auto simp: inv_def pump_inv_def full_trace_def split: sum.splits)
  moreover have "StartErr \<notin> set (trace cfg) \<longrightarrow> err_thread cfg = Unstarted"
    using i by (cases "pc cfg") (auto simp: inv_def pump_inv_def full_trace_def split: sum.splits)
  moreover have "JoinOut \<in> set (trace cfg) \<longrightarrow> finished (out_thread cfg)"
    using i by (cases "pc cfg") (auto simp: inv_def pump_inv_def full_trace_def split: sum.splits)
  moreover have "JoinErr \<in> set (trace cfg) \<longrightarrow> finished (err_thread cfg)"
    using i by (cases "pc cfg") (auto simp: inv_def pump_inv_def full_trace_def split: sum.splits)
  moreover have "pc cfg = Returned \<longrightarrow>
         JoinOut \<in> set (trace cfg) \<and> JoinErr \<in> set (trace cfg)
         \<and> finished (out_thread cfg) \<and> finished (err_thread cfg)"
    using i by (auto simp: inv_def pump_inv_def full_trace_def split: sum.splits)
  ultimately show ?thesis unfolding cfg_def [symmetric] Let_def by blast
qed

theorem execute_event_order_witness:
  "pc (execute shell_codec (demo_executor healthy_channel) demo_request (sequential 7 7))
     = Returned
   \<and> trace (execute shell_codec (demo_executor healthy_channel) demo_request (sequential 7 7))
     = [LogDebug ''echo hi'', ExecCommand ''echo hi'', StdinClose, StartOut, StartErr,
        JoinOut, JoinErr]
   \<and> finished (out_thread
        (execute shell_codec (demo_executor healthy_channel) demo_request (sequential 7 7)))
   \<and> finished (err_thread
        (execute shell_codec (demo_executor healthy_channel) demo_request (sequential 7 7)))"
  using execute_event_order
    [of shell_codec "demo_executor healthy_channel" demo_request "sequential 7 7"]
  by (simp add: healthy_run full_trace_def)

text \<open>
  C9: every run of a stream pump releases its sink exactly once, whatever the stream
  yields and whatever the sink accepts; when a read fails after some lines, the lines
  before it are recorded, the sink is released, the stream is left, and the failure
  leaves the pump.
\<close>

theorem sink_released_once:
  "releases (fst (log_file lv fl logfile)) = 1
   \<and> log_file lv (map Yields ls @ Fails # rest) (\<lambda>n l. True) =
       ([FileEnter, SinkAcquire] @ map (Record lv) ls @ [SinkRelease, FileExit],
        Some ReadFailure)"
proof
  show "releases (fst (log_file lv fl logfile)) = 1"
    by (rule log_file_releases)
  show "log_file lv (map Yields ls @ Fails # rest) (\<lambda>n l. True) =
       ([FileEnter, SinkAcquire] @ map (Record lv) ls @ [SinkRelease, FileExit],
        Some ReadFailure)"
    by (simp add: log_file_def consume_yields)
qed

text \<open>
  C10: the constructor sets exactly one of the attributes \<^verbatim>\<open>Frequency\<close> and
  \<^verbatim>\<open>ChannelNumber\<close> on the physical-layer helper. A frequency that counts as true
  is set as \<^verbatim>\<open>Frequency\<close>, and the channel argument then changes nothing in the
  helper's configuration; with no frequency, or frequency 0, the channel argument is set
  as \<^verbatim>\<open>ChannelNumber\<close>.
\<close>

theorem wifi_frequency_selection:
  "(truthy (Some f) \<longrightarrow>
      frequency_selection (wifi_phy_helper (wifi_init (Some f) ch width ants txp)) =
        [(''Frequency'', UintegerValue f)])
   \<and> (truthy freq \<longrightarrow>
        wifi_phy_helper (wifi_init freq ch width ants txp) =
          wifi_phy_helper (wifi_init freq ch' width ants txp))
   \<and> (\<not> truthy freq \<longrightarrow>
        frequency_selection (wifi_phy_helper (wifi_init freq ch width ants txp)) =
          [(''ChannelNumber'', UintegerValue ch)])
   \<and> \<not> truthy None \<and> \<not> truthy (Some 0)
   \<and> length (frequency_selection (wifi_phy_helper (wifi_init freq ch width ants txp))) = 1"
  by (cases freq) (simp_all add: wifi_init_def frequency_selection_def)

theorem wifi_frequency_selection_witness:
  "truthy (Some 5180)
   \<and> frequency_selection (wifi_phy_helper (wifi_init (Some 5180) 6 40 1 ())) =
       [(''Frequency'', UintegerValue 5180)]
   \<and> wifi_phy_helper (wifi_init (Some 5180) 6 40 1 ()) =
       wifi_phy_helper (wifi_init (Some 5180) 11 40 1 ())
   \<and> \<not> truthy (Some 0)
   \<and> frequency_selection (wifi_phy_helper (wifi_init (Some 0) 6 40 1 ())) =
       [(''ChannelNumber'', UintegerValue 6)]"
  using wifi_frequency_selection [of 5180 6 40 1 "()" "Some 5180" 11]
    wifi_frequency_selection [of 5180 6 40 1 "()" "Some 0" 11]
  by simp

text \<open>
  C4: when the channel is open, the remote command writes the lines \<open>outs\<close> to its
  standard output and \<open>errs\<close> to its standard error, and both sinks take every line,
  then under every schedule the records of the standard-output sink are an initial part
  of \<open>outs\<close>, each at level \<open>INFO\<close>, and those of the standard-error sink an initial
  part of \<open>errs\<close>, each at level \<open>ERROR\<close>; once the call has returned they are all
  of \<open>outs\<close> and all of \<open>errs\<close>, in order, and no later step changes anything.
  The call does return: under the schedule that lets the caller start both pumps, each
  pump run to its end and the caller join them, it returns with exactly these records.
\<close>

theorem pump_records_complete:
  assumes "command_line c (sudo ex) (command rq) (user rq) (shell rq) = Inr ln"
    and "client ex ln = Inr ch"
    and "stdout ch = map Yields outs" and "stderr ch = map Yields errs"
    and "\<forall>n l. stdout_logfile rq n l" and "\<forall>n l. stderr_logfile rq n l"
  shows "(let cfg = execute c ex rq sched in
      prefix (records (performed (out_thread cfg))) (map (Pair INFO) outs)
    \<and> prefix (records (performed (err_thread cfg))) (map (Pair ERROR) errs)
    \<and> (pc cfg = Returned \<longrightarrow>
          records (performed (out_thread cfg)) = map (Pair INFO) outs
        \<and> records (performed (err_thread cfg)) = map (Pair ERROR) errs
        \<and> length (records (performed (out_thread cfg))) = length outs
        \<and> length (records (performed (err_thread cfg))) = length errs
        \<and> execute c ex rq (sched @ later) = cfg))
    \<and> (let fin = execute c ex rq (sequential (length outs + 5) (length errs + 5)) in
          pc fin = Returned
        \<and> records (performed (out_thread fin)) = map (Pair INFO) outs
        \<and> records (performed (err_thread fin)) = map (Pair ERROR) errs
        \<and> length (records (performed (out_thread fin))) = length outs
        \<and> length (records (performed (err_thread fin))) = length errs)"
proof -
  define cfg where "cfg = execute c ex rq sched"
  have i: "inv c ex rq cfg" unfolding cfg_def by (rule inv_execute)
  note po = inv_opened(1) [OF i assms(1,2)] and pe = inv_opened(2) [OF i assms(1,2)]
  have lo: "log_file INFO (stdout ch) (stdout_logfile rq) =
      ([FileEnter, SinkAcquire] @ map (Record INFO) outs @ [SinkRelease, FileExit], None)"
    using log_file_yields [OF assms(5), of INFO outs] assms(3) by simp
  have le: "log_file ERROR (stderr ch) (stderr_logfile rq) =
      ([FileEnter, SinkAcquire] @ map (Record ERROR) errs @ [SinkRelease, FileExit], None)"
    using log_file_yields [OF assms(6), of ERROR errs] assms(4) by simp
  have ro: "records (fst (log_file INFO (stdout ch) (stdout_logfile rq))) = map (Pair INFO) outs"
    by (simp add: lo records_append records_map_Record)
  have re: "records (fst (log_file ERROR (stderr ch) (stderr_logfile rq))) = map (Pair ERROR) errs"
    by (simp add: le records_append records_map_Record)
  have a: "prefix (records (performed (out_thread cfg))) (map (Pair INFO) outs)"
    using records_prefix [OF pump_inv_prefix [OF po]] ro by simp
  have b: "prefix (records (performed (err_thread cfg))) (map (Pair ERROR) errs)"
    using records_prefix [OF pump_inv_prefix [OF pe]] re by simp
  have d: "records (performed (out_thread cfg)) = map (Pair INFO) outs
        \<and> records (performed (err_thread cfg)) = map (Pair ERROR) errs
        \<and> length (records (performed (out_thread cfg))) = length outs
        \<and> length (records (performed (err_thread cfg))) = length errs
        \<and> execute c ex rq (sched @ later) = cfg" if r: "pc cfg = Returned"
  proof -
    have f: "finished (out_thread cfg)" "finished (err_thread cfg)"
      using inv_returned [OF i r] by simp_all
    have "performed (out_thread cfg) = fst (log_file INFO (stdout ch) (stdout_logfile rq))"
      using pump_inv_finished [OF po f(1)] by simp
    moreover have "performed (err_thread cfg) = fst (log_file ERROR (stderr ch) (stderr_logfile rq))"
      using pump_inv_finished [OF pe f(2)] by simp
    moreover have "execute c ex rq (sched @ later) = cfg"
      using returned_stable [OF i r] by (simp add: execute_append cfg_def [symmetric])
    ultimately show ?thesis by (simp add: ro re)
  qed
  have "length (stdout ch) + 4 < length outs + 5" and "length (stderr ch) + 4 < length errs + 5"
    using assms(3,4) by simp_all
  from sequential_returns [OF assms(1,2) this]
  have g: "pc (execute c ex rq (sequential (length outs + 5) (length errs + 5))) = Returned
        \<and> records (performed (out_thread
              (execute c ex rq (sequential (length outs + 5) (length errs + 5)))))
            = map (Pair INFO) outs
        \<and> records (performed (err_thread
              (execute c ex rq (sequential (length outs + 5) (length errs + 5)))))
            = map (Pair ERROR) errs"
    by (simp add: ro re)
  have e: "(let fin = execute c ex rq (sequential (length outs + 5) (length errs + 5)) in
          pc fin = Returned
        \<and> records (performed (out_thread fin)) = map (Pair INFO) outs
        \<and> records (performed (err_thread fin)) = map (Pair ERROR) errs
        \<and> length (records (performed (out_thread fin))) = length outs
        \<and> length (records (performed (err_thread fin))) = length errs)"
    using g by (simp add: Let_def)
  have "(let cfg = cfg in
      prefix (records (performed (out_thread cfg))) (map (Pair INFO) outs)
    \<and> prefix (records (performed (err_thread cfg))) (map (Pair ERROR) errs)
    \<and> (pc cfg = Returned \<longrightarrow>
          records (performed (out_thread cfg)) = map (Pair INFO) outs
        \<and> records (performed (err_thread cfg)) = map (Pair ERROR) errs
        \<and> length (records (performed (out_thread cfg))) = length outs
        \<and> length (records (performed (err_thread cfg))) = length errs
        \<and> execute c ex rq (sched @ later) = cfg))"
    unfolding Let_def using a b d by blast
  then show ?thesis unfolding cfg_def using e by blast
qed

theorem pump_records_complete_witness:
  "pc (execute shell_codec (demo_executor healthy_channel) demo_request (sequential 7 7))
     = Returned
   \<and> records (performed (out_thread
        (execute shell_codec (demo_executor healthy_channel) demo_request (sequential 7 7))))
     = [(INFO, ''one''), (INFO, ''two'')]
   \<and> records (performed (err_thread
        (execute shell_codec (demo_executor healthy_channel) demo_request (sequential 7 7))))
     = [(ERROR, ''oops'')]
   \<and> execute shell_codec (demo_executor healthy_channel) demo_request
        (sequential 7 7 @ [OutThread, MainThread, ErrThread])
     = execute shell_codec (demo_executor healthy_channel) demo_request (sequential 7 7)"
proof -
  have 1: "client (demo_executor healthy_channel) ''echo hi'' = Inr healthy_channel"
    by (simp add: demo_executor_def)
  have 2: "stdout healthy_channel = map Yields [''one'', ''two'']"
    and 3: "stderr healthy_channel = map Yields [''oops'']"
    by (simp_all add: healthy_channel_def)
  have 4: "\<forall>n l. stdout_logfile demo_request n l" and 5: "\<forall>n l. stderr_logfile demo_request n l"
    by (simp_all add: demo_request_def accept_all_def)
  have r: "pc (execute shell_codec (demo_executor healthy_channel) demo_request (sequential 7 7))
     = Returned"
    by (simp add: healthy_run)
  show ?thesis
    using pump_records_complete [OF demo_line 1 2 3 4 5,
        of "sequential 7 7" "[OutThread, MainThread, ErrThread]"] r
    by (simp add: Let_def)
qed

text \<open>
  C5, as the code has it: once the channel is open the call raises nothing, whatever the
  pumps meet. A failure of a pump ends that pump only, after its sink was released
  (once) and its stream left (the last two events of an ended pump); it stays with the
  thread of the stream that failed and never reaches the caller, and the call returns
  once both pumps have been joined, which it can always do.
\<close>

theorem pump_failure_stays_in_thread:
  assumes "command_line c (sudo ex) (command rq) (user rq) (shell rq) = Inr ln"
    and "client ex ln = Inr ch"
  shows "(let cfg = execute c ex rq sched in
      pc cfg \<noteq> Raised e
    \<and> (finished (out_thread cfg) \<longrightarrow>
         uncaught (out_thread cfg) = snd (log_file INFO (stdout ch) (stdout_logfile rq)))
    \<and> (finished (err_thread cfg) \<longrightarrow>
         uncaught (err_thread cfg) = snd (log_file ERROR (stderr ch) (stderr_logfile rq)))
    \<and> (pc cfg = Returned \<longrightarrow> finished (out_thread cfg) \<and> finished (err_thread cfg))
    \<and> (finished (out_thread cfg) \<longrightarrow>
         releases (performed (out_thread cfg)) = 1
         \<and> (\<exists>es. performed (out_thread cfg) = es @ [SinkRelease, FileExit]))
    \<and> (finished (err_thread cfg) \<longrightarrow>
         releases (performed (err_thread cfg)) = 1
         \<and> (\<exists>es. performed (err_thread cfg) = es @ [SinkRelease, FileExit]))
    \<and> (pc cfg = Returned \<longrightarrow> JoinOut \<in> set (trace cfg) \<and> JoinErr \<in> set (trace cfg)))
    \<and> (\<exists>n m. pc (execute c ex rq (sequential n m)) = Returned)"
proof -
  define cfg where "cfg = execute c ex rq sched"
  have i: "inv c ex rq cfg" unfolding cfg_def by (rule inv_execute)
  note po = inv_opened(1) [OF i assms] and pe = inv_opened(2) [OF i assms]
  have "pc cfg \<noteq> Raised e" by (rule inv_opened(3) [OF i assms])
  moreover have "finished (out_thread cfg) \<longrightarrow>
         uncaught (out_thread cfg) = snd (log_file INFO (stdout ch) (stdout_logfile rq))"
    using pump_inv_finished [OF po] by simp
  moreover have "finished (err_thread cfg) \<longrightarrow>
         uncaught (err_thread cfg) = snd (log_file ERROR (stderr ch) (stderr_logfile rq))"
    using pump_inv_finished [OF pe] by simp
  moreover have "pc cfg = Returned \<longrightarrow> finished (out_thread cfg) \<and> finished (err_thread cfg)"
    using inv_returned [OF i] by simp
  moreover have "finished (out_thread cfg) \<longrightarrow>
         releases (performed (out_thread cfg)) = 1
         \<and> (\<exists>es. performed (out_thread cfg) = es @ [SinkRelease, FileExit])"
    using pump_inv_finished [OF po] log_file_releases [of INFO "stdout ch" "stdout_logfile rq"]
      log_file_ends [of INFO "stdout ch" "stdout_logfile rq"]
    by auto
  moreover have "finished (err_thread cfg) \<longrightarrow>
         releases (performed (err_thread cfg)) = 1
         \<and> (\<exists>es. performed (err_thread cfg) = es @ [SinkRelease, FileExit])"
    using pump_inv_finished [OF pe] log_file_releases [of ERROR "stderr ch" "stderr_logfile rq"]
      log_file_ends [of ERROR "stderr ch" "stderr_logfile rq"]
    by auto
  moreover have "pc cfg = Returned \<longrightarrow> JoinOut \<in> set (trace cfg) \<and> JoinErr \<in> set (trace cfg)"
    using inv_opened(4) [OF i assms] by (auto simp: full_trace_def)
  moreover have "\<exists>n m. pc (execute c ex rq (sequential n m)) = Returned"
  proof -
    have "pc (execute c ex rq (sequential (length (stdout ch) + 5) (length (stderr ch) + 5)))
            = Returned"
      using sequential_returns [OF assms, of "length (stdout ch) + 5" "length (stderr ch) + 5"]
      by simp
    then show ?thesis by blast
  qed
  ultimately show ?thesis unfolding Let_def cfg_def [symmetric] by blast
qed

theorem pump_failure_stays_in_thread_witness:
  "snd (log_file INFO (stdout broken_channel) (stdout_logfile demo_request)) = Some ReadFailure
   \<and> finished (out_thread
        (execute shell_codec (demo_executor broken_channel) demo_request (sequential 8 8)))
   \<and> uncaught (out_thread
        (execute shell_codec (demo_executor broken_channel) demo_request (sequential 8 8)))
       = Some ReadFailure
   \<and> pc (execute shell_codec (demo_executor broken_channel) demo_request (sequential 8 8))
       \<noteq> Raised ReadFailure"
proof -
  have 1: "client (demo_executor broken_channel) ''echo hi'' = Inr broken_channel"
    by (simp add: demo_executor_def)
  have 2: "snd (log_file INFO (stdout broken_channel) (stdout_logfile demo_request))
             = Some ReadFailure"
    by (simp add: broken_channel_def demo_request_def log_file_def accept_all_def)
  have 3: "finished (out_thread
        (execute shell_codec (demo_executor broken_channel) demo_request (sequential 8 8)))"
    by (simp add: broken_run)
  show ?thesis
    using pump_failure_stays_in_thread [OF demo_line 1, of "sequential 8 8" ReadFailure] 2 3
    by (simp add: Let_def)
qed

text \<open>
  C5 as stated fails: the read of standard output fails after the first line, and the
  call returns \<^verbatim>\<open>None\<close>; the failure is left with the standard-output thread.
\<close>

theorem pump_failure_not_raised:
  "outcome (execute shell_codec (demo_executor broken_channel) demo_request (sequential 8 8))
     = Some ReturnsNone
   \<and> uncaught (out_thread
        (execute shell_codec (demo_executor broken_channel) demo_request (sequential 8 8)))
     = Some ReadFailure"
  by (simp add: broken_run)

text \<open>
  C2, as the code has it: a call raises the failure of the splitter or of the transport
  call, or returns \<^verbatim>\<open>None\<close>, and then both pumps have been joined and have
  ended. No other value reaches the caller, every call can run to its end, and what the
  caller gets does not depend on the exit status of the remote command.
\<close>

theorem execute_returns_none:
  "(case command_line c (sudo ex) (command rq) (user rq) (shell rq) of
      Inl e \<Rightarrow> outcome (execute c ex rq sched) \<in> {None, Some (Raises e)}
    | Inr ln \<Rightarrow>
        (case client ex ln of
           Inl e \<Rightarrow> outcome (execute c ex rq sched) \<in> {None, Some (Raises e)}
         | Inr ch \<Rightarrow> outcome (execute c ex rq sched) \<in> {None, Some ReturnsNone}))
   \<and> (\<exists>n m. outcome (execute c ex rq (sequential n m)) \<noteq> None)
   \<and> outcome (execute c (with_exit_status k ex) rq sched) = outcome (execute c ex rq sched)
   \<and> (outcome (execute c ex rq sched) = Some ReturnsNone \<longrightarrow>
        JoinOut \<in> set (trace (execute c ex rq sched))
        \<and> JoinErr \<in> set (trace (execute c ex rq sched))
        \<and> finished (out_thread (execute c ex rq sched))
        \<and> finished (err_thread (execute c ex rq sched)))"
proof -
  define cfg where "cfg = execute c ex rq sched"
  have i: "inv c ex rq cfg" unfolding cfg_def by (rule inv_execute)
  have "(case command_line c (sudo ex) (command rq) (user rq) (shell rq) of
      Inl e \<Rightarrow> outcome cfg \<in> {None, Some (Raises e)}
    | Inr ln \<Rightarrow>
        (case client ex ln of
           Inl e \<Rightarrow> outcome cfg \<in> {None, Some (Raises e)}
         | Inr ch \<Rightarrow> outcome cfg \<in> {None, Some ReturnsNone}))"
    using i by (cases "pc cfg") (auto simp: inv_def split: sum.splits)
  moreover have "\<exists>n m. outcome (execute c ex rq (sequential n m)) \<noteq> None"
  proof (cases "command_line c (sudo ex) (command rq) (user rq) (shell rq)")
    case (Inl e)
    have "outcome (execute c ex rq (sequential 0 0)) \<noteq> None"
      using sequential_raises_compose [OF Inl, of 0 0] by simp
    then show ?thesis by blast
  next
    case (Inr ln)
    show ?thesis
    proof (cases "client ex ln")
      case (Inl e)
      have "outcome (execute c ex rq (sequential 0 0)) \<noteq> None"
        using sequential_raises_transport [OF Inr Inl, of 0 0] by simp
      then show ?thesis by blast
    next
      case (Inr ch)
      have "outcome (execute c ex rq (sequential (length (stdout ch) + 5) (length (stderr ch) + 5)))
              \<noteq> None"
        using sequential_returns [OF \<open>command_line c (sudo ex) (command rq) (user rq) (shell rq) = Inr ln\<close> Inr,
            of "length (stdout ch) + 5" "length (stderr ch) + 5"]
        by simp
      then show ?thesis by blast
    qed
  qed
  moreover have "outcome (execute c (with_exit_status k ex) rq sched) = outcome (execute c ex rq sched)"
    by (simp add: execute_forget_status forget_status_def)
  moreover have "outcome cfg = Some ReturnsNone \<longrightarrow>
        JoinOut \<in> set (trace cfg) \<and> JoinErr \<in> set (trace cfg)
        \<and> finished (out_thread cfg) \<and> finished (err_thread cfg)"
    using i
    by (cases "pc cfg") (auto simp: inv_def pump_inv_def full_trace_def split: sum.splits)
  ultimately show ?thesis unfolding cfg_def [symmetric] by blast
qed

theorem execute_returns_none_witness:
  "outcome (execute shell_codec (demo_executor healthy_channel) demo_request (sequential 7 7))
     \<in> {None, Some ReturnsNone}
   \<and> outcome (execute shell_codec (demo_executor healthy_channel) demo_request (sequential 7 7))
     \<noteq> None"
  using execute_returns_none
    [of shell_codec "demo_executor healthy_channel" demo_request "sequential 7 7"]
  by (simp add: healthy_run)

text \<open>
  C2 as stated fails: a remote command that ends with exit status 1 and one that ends
  with exit status 0 both leave the caller with \<^verbatim>\<open>None\<close>, which carries no status.
\<close>

theorem execute_drops_status:
  "exit_status broken_channel = 1
   \<and> outcome (execute shell_codec (demo_executor broken_channel) demo_request (sequential 8 8))
       = Some ReturnsNone
   \<and> exit_status healthy_channel = 0
   \<and> outcome (execute shell_codec (demo_executor healthy_channel) demo_request (sequential 7 7))
       = Some ReturnsNone"
proof -
  have "exit_status broken_channel = 1" and "exit_status healthy_channel = 0"
    by (simp_all add: broken_channel_def healthy_channel_def)
  then show ?thesis by (simp add: broken_run healthy_run)
qed

end
